theory Spec2Isabelle
  imports Main
begin

section \<open>Guess the Country: the session state and its handlers\<close>

text \<open>
  The program is one script, \<^verbatim>\<open>guess_the_country_app.py\<close>, that the framework runs from
  top to bottom after every user action, over a session store that survives the runs.
  Each block of the script that writes the store is a function here from the store (and
  the inputs the block reads: widget values, the random draw, the generator's reply) to
  an outcome: the messages shown and the store afterwards, or the exception that left
  the script together with the store as it stood when it was raised.

  A string is the list of its code points, each below 256 (the type \<open>char\<close> has eight
  bits): ASCII and the Latin-1 letters of country names; text with code points from 256
  on is outside the model. The catalog \<^verbatim>\<open>raw_data\<close> (the parsed
  \<^verbatim>\<open>countries.json\<close>) is a parameter.
\<close>

subsection \<open>Python strings: \<^verbatim>\<open>lower\<close> and \<open>strip\<close>\<close>

text \<open>\<^verbatim>\<open>str.lower\<close> on code points below 256 works character by character: the
  letters A to Z, and the Latin-1 capitals 0xC0 to 0xDE other than the multiplication
  sign 0xD7, map to the code point 32 above; every other character maps to itself.\<close>

definition upper_letters :: "char list" where
  "upper_letters =
     ''ABCDEFGHIJKLMNOPQRSTUVWXYZ'' @
     [CHR 0xC0, CHR 0xC1, CHR 0xC2, CHR 0xC3, CHR 0xC4, CHR 0xC5, CHR 0xC6,
      CHR 0xC7, CHR 0xC8, CHR 0xC9, CHR 0xCA, CHR 0xCB, CHR 0xCC, CHR 0xCD,
      CHR 0xCE, CHR 0xCF, CHR 0xD0, CHR 0xD1, CHR 0xD2, CHR 0xD3, CHR 0xD4,
      CHR 0xD5, CHR 0xD6, CHR 0xD8, CHR 0xD9, CHR 0xDA, CHR 0xDB, CHR 0xDC,
      CHR 0xDD, CHR 0xDE]"

definition lower_letters :: "char list" where
  "lower_letters =
     ''abcdefghijklmnopqrstuvwxyz'' @
     [CHR 0xE0, CHR 0xE1, CHR 0xE2, CHR 0xE3, CHR 0xE4, CHR 0xE5, CHR 0xE6,
      CHR 0xE7, CHR 0xE8, CHR 0xE9, CHR 0xEA, CHR 0xEB, CHR 0xEC, CHR 0xED,
      CHR 0xEE, CHR 0xEF, CHR 0xF0, CHR 0xF1, CHR 0xF2, CHR 0xF3, CHR 0xF4,
      CHR 0xF5, CHR 0xF6, CHR 0xF8, CHR 0xF9, CHR 0xFA, CHR 0xFB, CHR 0xFC,
      CHR 0xFD, CHR 0xFE]"

definition lower_char :: "char \<Rightarrow> char" where
  "lower_char c =
     (case map_of (zip upper_letters lower_letters) c of
        None \<Rightarrow> c
      | Some l \<Rightarrow> l)"

definition lower :: "string \<Rightarrow> string" where
  "lower s = map lower_char s"

text \<open>\<^verbatim>\<open>str.isspace\<close> on code points below 256: tab, line feed, vertical tab, form
  feed, carriage return, the four separators 0x1C to 0x1F, the space, the next-line
  control 0x85 and the no-break space 0xA0. \<^verbatim>\<open>str.strip()\<close> removes the characters
  of this kind at both ends.\<close>

definition isspace :: "char \<Rightarrow> bool" where
  "isspace c =
     (c \<in> set [CHR 0x09, CHR 0x0A, CHR 0x0B, CHR 0x0C, CHR 0x0D,
                CHR 0x1C, CHR 0x1D, CHR 0x1E, CHR 0x1F, CHR 0x20, CHR 0x85, CHR 0xA0])"

definition strip :: "string \<Rightarrow> string" where
  "strip s = rev (dropWhile isspace (rev (dropWhile isspace s)))"

subsection \<open>Catalog records and the secret country\<close>

text \<open>
  A catalog record is a JSON object; a key read with \<^verbatim>\<open>entry.get(key, default)\<close> may be
  absent (\<open>None\<close>). \<^verbatim>\<open>entry["name"]["common"]\<close> is read without a default: the field is
  taken to be present in every record.
\<close>

record country_entry =
  name_common :: string
  region :: "string option"
  population :: "int option"
  capital :: "string list option"
  borders :: "string list option"
  landlocked :: "bool option"
  unMember :: "bool option"
  fifa :: "string option"
  cca2 :: "string option"
  languages :: "(string \<times> string) list option"

datatype difficulty = Easy | Medium | Hard

datatype py_error = IndexError | TypeError | AttributeError

text \<open>The reply of \<^verbatim>\<open>generate_country_info_with_ai\<close>: three lists of strings (all empty
  when the call or the parsing of its reply fails). It is an input of the model.\<close>

record culture =
  food :: "string list"
  landmark :: "string list"
  festival :: "string list"

record secret_country =
  s_name :: string
  s_region :: string
  s_population :: string
  s_capital :: string
  s_coastline :: bool
  s_neighbors :: nat
  s_un :: bool
  s_language :: string
  s_fifa :: string
  s_cca2 :: string
  s_culture :: culture

definition classify_population :: "int \<Rightarrow> string" where
  "classify_population pop =
     (if pop < 1000000 then ''small''
      else if pop < 30000000 then ''medium''
      else ''large'')"

fun target :: "difficulty \<Rightarrow> string" where
  "target Easy = ''large''"
| "target Medium = ''medium''"
| "target Hard = ''small''"

definition get_population :: "country_entry \<Rightarrow> int" where
  "get_population c = (case population c of None \<Rightarrow> 0 | Some p \<Rightarrow> p)"

definition get_filtered_country_by_difficulty ::
    "country_entry list \<Rightarrow> difficulty \<Rightarrow> country_entry list" where
  "get_filtered_country_by_difficulty raw_data d =
     filter (\<lambda>c. classify_population (get_population c) = target d) raw_data"

text \<open>\<^verbatim>\<open>random.choice(filtered)\<close>: IndexError on the empty list, else the element at a
  random index below the length; the draw \<open>r\<close> is an input.\<close>

definition random_choice :: "nat \<Rightarrow> 'a list \<Rightarrow> py_error + 'a" where
  "random_choice r xs = (if xs = [] then Inl IndexError else Inr (xs ! (r mod length xs)))"

definition select_country ::
    "country_entry list \<Rightarrow> difficulty \<Rightarrow> nat \<Rightarrow> py_error + country_entry" where
  "select_country raw_data d r = random_choice r (get_filtered_country_by_difficulty raw_data d)"

definition first_language :: "country_entry \<Rightarrow> string" where
  "first_language e =
     (case languages e of
        None \<Rightarrow> ''Unknown''
      | Some [] \<Rightarrow> ''Unknown''
      | Some ((k, v) # rest) \<Rightarrow> v)"

text \<open>The snapshot built by \<^verbatim>\<open>setup_new_country\<close> from the drawn record.
  \<^verbatim>\<open>entry.get("capital", ["Unknown"])[0]\<close> raises IndexError on an empty capital list.\<close>

definition make_secret :: "country_entry \<Rightarrow> culture \<Rightarrow> py_error + secret_country" where
  "make_secret e cu =
     (case (case capital e of None \<Rightarrow> [''Unknown''] | Some cs \<Rightarrow> cs) of
        [] \<Rightarrow> Inl IndexError
      | cap # rest \<Rightarrow>
          Inr \<lparr> s_name = name_common e,
                s_region = (case region e of None \<Rightarrow> ''Unknown'' | Some r \<Rightarrow> r),
                s_population = classify_population (get_population e),
                s_capital = cap,
                s_coastline = (\<not> (case landlocked e of None \<Rightarrow> True | Some b \<Rightarrow> b)),
                s_neighbors = length (case borders e of None \<Rightarrow> [] | Some bs \<Rightarrow> bs),
                s_un = (case unMember e of None \<Rightarrow> False | Some b \<Rightarrow> b),
                s_language = first_language e,
                s_fifa = (case fifa e of None \<Rightarrow> ''Unknown'' | Some f \<Rightarrow> f),
                s_cca2 = (case cca2 e of None \<Rightarrow> ''XX'' | Some c \<Rightarrow> c),
                s_culture = cu \<rparr>)"

subsection \<open>The session store\<close>

text \<open>The key \<^verbatim>\<open>secret\<close> of the store is absent until the first round is set up, and
  holds \<^verbatim>\<open>None\<close> between a replay request and the set-up that follows it.\<close>

datatype 'a attr = Missing | Present 'a

record session =
  game_started :: bool
  points :: int
  attempts :: int
  previous_hints :: "string list"
  answers :: "(string \<times> string) list"
  asked_questions :: "string list"
  leaderboard :: "(string \<times> int) list"
  secret :: "secret_country option attr"
  replay_requested :: bool

definition init_session :: session where
  "init_session =
     \<lparr> game_started = False, points = 100, attempts = 0, previous_hints = [],
       answers = [], asked_questions = [], leaderboard = [], secret = Missing,
       replay_requested = False \<rparr>"

datatype message =
    NewCountryLoaded
  | OutOfPoints
  | QuestionNoLongerAvailable
  | Correct
  | WrongGuess
  | GameOver
  | Hint string
  | AlreadySeenHint
  | CouldNotFetchHint
  | HintRequested string "string list"

text \<open>\<open>HintRequested country used_hints\<close> records the call to the generator in the
  wrong-guess branch. \<open>Stopped\<close> is \<^verbatim>\<open>st.stop()\<close>; \<open>Raised\<close> is an exception that no
  handler of the script catches.\<close>

datatype outcome =
    Done "message list" session
  | Stopped "message list" session
  | Raised py_error session

fun session_of :: "outcome \<Rightarrow> session" where
  "session_of (Done ms s) = s"
| "session_of (Stopped ms s) = s"
| "session_of (Raised e s) = s"

fun messages_of :: "outcome \<Rightarrow> message list" where
  "messages_of (Done ms s) = ms"
| "messages_of (Stopped ms s) = ms"
| "messages_of (Raised e s) = []"

subsection \<open>Round start\<close>

definition setup_new_country ::
    "country_entry list \<Rightarrow> difficulty \<Rightarrow> nat \<Rightarrow> culture \<Rightarrow> session \<Rightarrow> py_error + session" where
  "setup_new_country raw_data d r cu s =
     (case select_country raw_data d r of
        Inl e \<Rightarrow> Inl e
      | Inr entry \<Rightarrow>
          (case make_secret entry cu of
             Inl e \<Rightarrow> Inl e
           | Inr sc \<Rightarrow> Inr (s\<lparr>secret := Present (Some sc)\<rparr>)))"

text \<open>The block under \<^verbatim>\<open>if st.button("Start Game") or replay_requested\<close>; \<open>clicked\<close> is
  the button's value in this run.\<close>

definition start_game ::
    "bool \<Rightarrow> country_entry list \<Rightarrow> difficulty \<Rightarrow> nat \<Rightarrow> culture \<Rightarrow> session \<Rightarrow> outcome" where
  "start_game clicked raw_data d r cu s =
     (if clicked \<or> replay_requested s then
        (let s1 = s\<lparr>replay_requested := False\<rparr> in
         case setup_new_country raw_data d r cu s1 of
           Inl e \<Rightarrow> Raised e s1
         | Inr s2 \<Rightarrow>
             Done [NewCountryLoaded]
               (s2\<lparr>answers := [], asked_questions := [], previous_hints := [],
                   game_started := True\<rparr>))
      else Done [] s)"

text \<open>The check at the head of the game block: a started game with no points left ends
  and the run stops.\<close>

definition out_of_points_check :: "session \<Rightarrow> outcome" where
  "out_of_points_check s =
     (if game_started s \<and> points s \<le> 0
      then Stopped [OutOfPoints] (s\<lparr>game_started := False\<rparr>)
      else Done [] s)"

subsection \<open>Questions\<close>

text \<open>\<^verbatim>\<open>q_map\<close>, in the order of the dictionary. Each function reads the secret by
  subscript, which raises TypeError when the secret is \<^verbatim>\<open>None\<close>; the last one does not
  read it.\<close>

definition on_secret ::
    "(secret_country \<Rightarrow> string) \<Rightarrow> secret_country option \<Rightarrow> py_error + string" where
  "on_secret f c = (case c of None \<Rightarrow> Inl TypeError | Some sc \<Rightarrow> Inr (f sc))"

definition yes_no :: "bool \<Rightarrow> string" where
  "yes_no b = (if b then ''Yes'' else ''No'')"

definition q_map :: "(string \<times> (secret_country option \<Rightarrow> py_error + string)) list" where
  "q_map =
     [ (''Is it in Europe?'',
          on_secret (\<lambda>c. if lower (s_region c) \<noteq> ''europe''
                          then ''No, it'' @ [CHR 0x27] @ ''s in '' @ s_region c
                          else ''Yes, it'' @ [CHR 0x27] @ ''s in Europe'')),
       (''Is its population small, medium, or large?'', on_secret s_population),
       (''Does it have a coastline?'', on_secret (\<lambda>c. yes_no (s_coastline c))),
       (''Does it have more than 3 neighboring countries?'',
          on_secret (\<lambda>c. yes_no (s_neighbors c > 3))),
       (''Is it a UN member?'', on_secret (\<lambda>c. yes_no (s_un c))),
       (''What is the country'' @ [CHR 0x27] @ ''s capital city?'', on_secret s_capital),
       (''What is the country'' @ [CHR 0x27] @ ''s FIFA code?'', on_secret s_fifa),
       (''What is the flag?'', (\<lambda>c. Inr ''Here is the flag:'')) ]"

definition available :: "session \<Rightarrow> string list" where
  "available s = filter (\<lambda>q. q \<notin> set (asked_questions s)) (map fst q_map)"

text \<open>The body of \<^verbatim>\<open>if st.button("Submit Question")\<close> up to its warning. \<open>selected\<close> is the
  value of the select box (\<open>None\<close> when it has no option).\<close>

definition submit_question :: "string option \<Rightarrow> session \<Rightarrow> outcome" where
  "submit_question selected s =
     (case selected of
        None \<Rightarrow> Done [QuestionNoLongerAvailable] s
      | Some q \<Rightarrow>
          if q \<in> set (available s) then
            (case map_of q_map q of
               None \<Rightarrow> Done [QuestionNoLongerAvailable] s
             | Some f \<Rightarrow>
                 (case secret s of
                    Missing \<Rightarrow> Raised AttributeError s
                  | Present c \<Rightarrow>
                      (case f c of
                         Inl e \<Rightarrow> Raised e s
                       | Inr answer \<Rightarrow>
                           Done []
                             (s\<lparr>answers := answers s @ [(q, answer)],
                                asked_questions := asked_questions s @ [q],
                                points := points s - 2\<rparr>))))
          else Done [QuestionNoLongerAvailable] s)"

subsection \<open>Guesses\<close>

text \<open>The body of \<^verbatim>\<open>if st.button("Submit Guess")\<close>. \<open>guess\<close> is the text typed;
  \<open>reply\<close> is what the \<^verbatim>\<open>try\<close> block obtains from the generator when it is run: the
  parsed hint, or \<open>None\<close> when the call, the parsing or the key lookup raises (every
  exception there is caught). The wrong-guess branch is, as in the source, two
  statements in sequence: \<^verbatim>\<open>if points <= 0\<close>, then \<^verbatim>\<open>if attempts >= 5 ... else ...\<close>.
  In the source the statement is indented under \<^verbatim>\<open>if st.button("Submit Question")\<close>;
  \<open>question_block\<close> below is that whole statement.\<close>

definition wrong_guess :: "secret_country \<Rightarrow> string option \<Rightarrow> session \<Rightarrow> outcome" where
  "wrong_guess c reply s =
     (let s1 = s\<lparr>attempts := attempts s + 1\<rparr>;
          s2 = s1\<lparr>points := points s1 - 20\<rparr>;
          m3 = (if points s2 \<le> 0 then [OutOfPoints] else []);
          s3 = (if points s2 \<le> 0 then s2\<lparr>game_started := False\<rparr> else s2)
      in if attempts s3 \<ge> 5 then
           Done ([WrongGuess] @ m3 @ [GameOver]) (s3\<lparr>game_started := False\<rparr>)
         else
           (let req = HintRequested (s_name c) (previous_hints s3) in
            case reply of
              None \<Rightarrow> Done ([WrongGuess] @ m3 @ [req, CouldNotFetchHint]) s3
            | Some hint \<Rightarrow>
                if hint \<notin> set (previous_hints s3) then
                  Done ([WrongGuess] @ m3 @ [req, Hint hint])
                    (s3\<lparr>previous_hints := previous_hints s3 @ [hint]\<rparr>)
                else Done ([WrongGuess] @ m3 @ [req, AlreadySeenHint]) s3))"

definition submit_guess :: "string \<Rightarrow> string option \<Rightarrow> session \<Rightarrow> outcome" where
  "submit_guess guess reply s =
     (case secret s of
        Missing \<Rightarrow> Raised AttributeError s
      | Present None \<Rightarrow> Raised TypeError s
      | Present (Some c) \<Rightarrow>
          if lower (strip guess) = lower (s_name c)
          then Done [Correct] (s\<lparr>game_started := False\<rparr>)
          else wrong_guess c reply s)"

subsection \<open>Leaderboard\<close>

text \<open>\<^verbatim>\<open>sorted(xs, key=..., reverse=True)\<close>: the stable sort of the reversed list,
  reversed, so that entries with equal keys keep their order.\<close>

definition sorted_reverse :: "('a \<Rightarrow> int) \<Rightarrow> 'a list \<Rightarrow> 'a list" where
  "sorted_reverse key xs = rev (sort_key key (rev xs))"

text \<open>The body of \<^verbatim>\<open>if st.button("Submit Score") and player\<close>, with the button clicked:
  the empty string is the only falsy name.\<close>

definition submit_score :: "string \<Rightarrow> session \<Rightarrow> session" where
  "submit_score player s =
     (if player \<noteq> [] then
        (let current_score = points s;
             existing = filter (\<lambda>e. fst e = player) (leaderboard s);
             lb1 =
               (case existing of
                  [] \<Rightarrow> leaderboard s @ [(player, current_score)]
                | e # es \<Rightarrow>
                    (let best_prev = fold max (map snd es) (snd e) in
                     if current_score > best_prev
                     then filter (\<lambda>e. fst e \<noteq> player) (leaderboard s) @ [(player, current_score)]
                     else leaderboard s))
         in s\<lparr>leaderboard := take 5 (sorted_reverse snd lb1)\<rparr>)
      else s)"

text \<open>The name field and the button exist only while no game is running and a secret
  has been set.\<close>

definition leaderboard_block :: "bool \<Rightarrow> string \<Rightarrow> session \<Rightarrow> outcome" where
  "leaderboard_block clicked player s =
     (if \<not> game_started s \<and> secret s \<noteq> Missing \<and> clicked
      then Done [] (submit_score player s)
      else Done [] s)"

subsection \<open>Replay\<close>

text \<open>The body of \<^verbatim>\<open>if st.button("Play Again")\<close> before \<^verbatim>\<open>st.rerun()\<close>.\<close>

definition play_again :: "session \<Rightarrow> session" where
  "play_again s =
     (let s1 = (if points s \<le> 0 \<or> attempts s \<ge> 5
                then s\<lparr>points := 100, attempts := 0\<rparr> else s)
      in s1\<lparr>secret := Present None, replay_requested := True, game_started := False\<rparr>)"

text \<open>Sequencing of two blocks of one run: the second runs only when the first neither
  stopped the run nor raised.\<close>

definition and_then :: "outcome \<Rightarrow> (session \<Rightarrow> outcome) \<Rightarrow> outcome" where
  "and_then r f =
     (case r of
        Done ms s \<Rightarrow>
          (case f s of
             Done ms' s' \<Rightarrow> Done (ms @ ms') s'
           | Stopped ms' s' \<Rightarrow> Stopped (ms @ ms') s'
           | Raised e s' \<Rightarrow> Raised e s')
      | Stopped ms s \<Rightarrow> Stopped ms s
      | Raised e s \<Rightarrow> Raised e s)"

text \<open>\<^verbatim>\<open>st.rerun()\<close> runs the script again from the top with no button clicked: the
  start block (taken when a replay was requested), then the out-of-points check; the
  later blocks write nothing without a click.\<close>

definition rerun ::
    "country_entry list \<Rightarrow> difficulty \<Rightarrow> nat \<Rightarrow> culture \<Rightarrow> session \<Rightarrow> outcome" where
  "rerun raw_data d r cu s = and_then (start_game False raw_data d r cu s) out_of_points_check"

definition replay ::
    "country_entry list \<Rightarrow> difficulty \<Rightarrow> nat \<Rightarrow> culture \<Rightarrow> session \<Rightarrow> outcome" where
  "replay raw_data d r cu s = rerun raw_data d r cu (play_again s)"

subsection \<open>The question block as a whole\<close>

text \<open>After the submission, the body of \<^verbatim>\<open>if st.button("Submit Question")\<close> shows the
  answers; at a flag answer it reads \<^verbatim>\<open>st.session_state.secret.get("cca2", "XX")\<close>, which
  raises AttributeError when the key is absent or holds \<^verbatim>\<open>None\<close>.\<close>

definition show_answers :: "session \<Rightarrow> outcome" where
  "show_answers s =
     (if ''What is the flag?'' \<in> set (map fst (answers s)) then
        (case secret s of
           Missing \<Rightarrow> Raised AttributeError s
         | Present None \<Rightarrow> Raised AttributeError s
         | Present (Some c) \<Rightarrow> Done [] s)
      else Done [] s)"

text \<open>The whole statement \<^verbatim>\<open>if st.button("Submit Question")\<close>: the submission, the
  answers shown, then the guess field and \<^verbatim>\<open>if st.button("Submit Guess")\<close> with its body.
  \<open>clicked_question\<close> and \<open>clicked_guess\<close> are the values of the two buttons in this
  run. The guess is looked at only in a run where the question button is pressed, after
  that run's submission.\<close>

definition question_block ::
    "bool \<Rightarrow> string option \<Rightarrow> bool \<Rightarrow> string \<Rightarrow> string option \<Rightarrow> session \<Rightarrow> outcome" where
  "question_block clicked_question selected clicked_guess guess reply s =
     (if clicked_question then
        and_then (and_then (submit_question selected s) show_answers)
          (\<lambda>s'. if clicked_guess then submit_guess guess reply s' else Done [] s')
      else Done [] s)"

subsection \<open>Reachable stores\<close>

text \<open>The stores the script can leave behind: the initial one, and the one left by any
  block run on a reachable store, with any inputs. The question and the guess step
  together cover every run of \<open>question_block\<close>.\<close>

inductive reachable :: "session \<Rightarrow> bool" where
  r_init: "reachable init_session"
| r_start: "reachable s \<Longrightarrow> reachable (session_of (start_game clicked raw_data d r cu s))"
| r_check: "reachable s \<Longrightarrow> reachable (session_of (out_of_points_check s))"
| r_question: "reachable s \<Longrightarrow> reachable (session_of (submit_question selected s))"
| r_guess: "reachable s \<Longrightarrow> reachable (session_of (submit_guess guess reply s))"
| r_score: "reachable s \<Longrightarrow> reachable (session_of (leaderboard_block clicked player s))"
| r_again: "reachable s \<Longrightarrow> reachable (play_again s)"

subsection \<open>Sample data\<close>

text \<open>A one-record catalog and the stores of a sample play, used to run the handlers on
  concrete inputs.\<close>

definition france :: country_entry where
  "france =
     \<lparr> name_common = ''France'', region = Some ''Europe'', population = Some 67000000,
       capital = Some [''Paris''],
       borders = Some [''AND'', ''BEL'', ''DEU'', ''ITA'', ''LUX'', ''MCO'', ''ESP'', ''CHE''],
       landlocked = Some False, unMember = Some True, fifa = Some ''FRA'',
       cca2 = Some ''FR'', languages = Some [(''fra'', ''French'')] \<rparr>"

definition no_culture :: culture where
  "no_culture = \<lparr> food = [], landmark = [], festival = [] \<rparr>"

definition secret_france :: secret_country where
  "secret_france =
     \<lparr> s_name = ''France'', s_region = ''Europe'', s_population = ''large'',
       s_capital = ''Paris'', s_coastline = True, s_neighbors = 8, s_un = True,
       s_language = ''French'', s_fifa = ''FRA'', s_cca2 = ''FR'',
       s_culture = no_culture \<rparr>"

text \<open>Asking the questions of a list in turn, and guessing wrongly \<open>n\<close> times with no
  hint obtained.\<close>

definition ask_all :: "string list \<Rightarrow> session \<Rightarrow> session" where
  "ask_all qs s = fold (\<lambda>q s'. session_of (submit_question (Some q) s')) qs s"

fun guess_wrong :: "nat \<Rightarrow> session \<Rightarrow> session" where
  "guess_wrong 0 s = s"
| "guess_wrong (Suc n) s = guess_wrong n (session_of (submit_guess ''Spain'' None s))"

text \<open>The first round on the sample catalog.\<close>

definition round1 :: session where
  "round1 = session_of (start_game True [france] Easy 0 no_culture init_session)"

text \<open>A second round reached by play alone: three wrong guesses and all eight questions
  in the first round (24 points left), the right guess, a replay, and two questions.\<close>

definition won1 :: session where
  "won1 =
     session_of (submit_guess ''france'' None (ask_all (map fst q_map)
       (guess_wrong (Suc (Suc (Suc 0))) round1)))"

definition round2 :: session where
  "round2 =
     ask_all (take 2 (map fst q_map)) (session_of (replay [france] Easy 0 no_culture won1))"

text \<open>A first round lost by five wrong guesses.\<close>

definition lost1 :: session where
  "lost1 = guess_wrong (Suc (Suc (Suc (Suc (Suc 0))))) round1"

text \<open>A player who submits the score of the lost round (0), replays, wins the next round
  at once (100 points) and has then a better score than the stored one.\<close>

definition ada_lost :: session where
  "ada_lost = session_of (leaderboard_block True ''Ada'' lost1)"

definition ada_won :: session where
  "ada_won =
     session_of (submit_guess ''france'' None
       (session_of (replay [france] Easy 0 no_culture ada_lost)))"

section \<open>Properties\<close>

subsection \<open>Unfolding and sample runs\<close>

lemmas handler_defs = start_game_def setup_new_country_def select_country_def random_choice_def
  get_filtered_country_by_difficulty_def classify_population_def get_population_def make_secret_def
  first_language_def submit_question_def available_def q_map_def on_secret_def yes_no_def
  submit_guess_def wrong_guess_def lower_def lower_char_def upper_letters_def lower_letters_def strip_def isspace_def
  play_again_def replay_def rerun_def and_then_def out_of_points_check_def
  leaderboard_block_def submit_score_def sorted_reverse_def

lemmas sample_defs = france_def no_culture_def secret_france_def init_session_def

lemma round1_eq:
  "round1 = init_session\<lparr>secret := Present (Some secret_france), game_started := True\<rparr>"
  by (simp add: round1_def sample_defs handler_defs)

lemma reachable_round1: "reachable round1"
  unfolding round1_def by (intro reachable.intros)

subsection \<open>The answers and the asked questions stay aligned\<close>

lemma start_game_lists:
  "map fst (answers s) = asked_questions s \<Longrightarrow>
   map fst (answers (session_of (start_game clicked raw_data d r cu s))) =
     asked_questions (session_of (start_game clicked raw_data d r cu s))"
  by (auto simp: start_game_def setup_new_country_def Let_def split: sum.splits)

lemma submit_question_lists:
  "map fst (answers s) = asked_questions s \<Longrightarrow>
   map fst (answers (session_of (submit_question selected s))) =
     asked_questions (session_of (submit_question selected s))"
  by (auto simp: submit_question_def split: option.splits attr.splits sum.splits)

lemma submit_guess_keeps:
  "answers (session_of (submit_guess guess reply s)) = answers s"
  "asked_questions (session_of (submit_guess guess reply s)) = asked_questions s"
  "leaderboard (session_of (submit_guess guess reply s)) = leaderboard s"
  by (auto simp: submit_guess_def wrong_guess_def Let_def split: option.splits attr.splits)

lemma lists_inv: "reachable s \<Longrightarrow> map fst (answers s) = asked_questions s"
proof (induction rule: reachable.induct)
  case r_init
  show ?case by (simp add: init_session_def)
next
  case (r_start s clicked raw_data d r cu)
  from r_start.IH show ?case by (rule start_game_lists)
next
  case (r_check s)
  then show ?case by (simp add: out_of_points_check_def)
next
  case (r_question s selected)
  from r_question.IH show ?case by (rule submit_question_lists)
next
  case (r_guess s guess reply)
  then show ?case by (simp add: submit_guess_keeps)
next
  case (r_score s clicked player)
  then show ?case by (simp add: leaderboard_block_def submit_score_def Let_def)
next
  case (r_again s)
  then show ?case by (simp add: play_again_def Let_def)
qed

lemma submit_question_appends:
  "submit_question selected s = Done ms s' \<Longrightarrow>
   s' = s \<or> (\<exists>q a. selected = Some q \<and> answers s' = answers s @ [(q, a)] \<and>
                   asked_questions s' = asked_questions s @ [q])"
  by (auto simp: submit_question_def split: option.splits attr.splits sum.splits if_splits)

lemma start_game_clears:
  "start_game clicked raw_data d r cu s = Done ms s' \<Longrightarrow>
   s' = s \<or> (answers s' = [] \<and> asked_questions s' = [])"
  by (auto simp: start_game_def setup_new_country_def Let_def split: sum.splits if_splits)

text \<open>
  Claim C10. In every reachable store the answers list and the asked-questions list have
  the same length, and the question of the i-th answer is the i-th asked question. A
  question block that changes the store appends one entry to each list, and a start
  block that changes the store empties both.
\<close>

theorem answers_aligned_with_asked_questions:
  assumes "reachable s"
  shows "length (answers s) = length (asked_questions s) \<and>
         (\<forall>i<length (answers s). fst (answers s ! i) = asked_questions s ! i) \<and>
         (\<forall>selected ms s'. submit_question selected s = Done ms s' \<longrightarrow>
            s' = s \<or> (\<exists>q a. selected = Some q \<and> answers s' = answers s @ [(q, a)] \<and>
                           asked_questions s' = asked_questions s @ [q])) \<and>
         (\<forall>clicked raw_data d r cu ms s'.
            start_game clicked raw_data d r cu s = Done ms s' \<longrightarrow>
            s' = s \<or> (answers s' = [] \<and> asked_questions s' = []))"
proof -
  have m: "map fst (answers s) = asked_questions s"
    using assms by (rule lists_inv)
  have len: "length (answers s) = length (asked_questions s)"
    using m by (metis length_map)
  have idx: "\<forall>i<length (answers s). fst (answers s ! i) = asked_questions s ! i"
    using m by (metis nth_map)
  show ?thesis
    using len idx submit_question_appends start_game_clears by blast
qed

lemma flag_asked_in_round1:
  "submit_question (Some ''What is the flag?'') round1 =
     Done [] (round1\<lparr>answers := [(''What is the flag?'', ''Here is the flag:'')],
                     asked_questions := [''What is the flag?''], points := 98\<rparr>)"
  by (simp add: round1_eq sample_defs submit_question_def available_def q_map_def)

text \<open>The store after the flag question has been asked in the sample round.\<close>

theorem answers_aligned_with_asked_questions_witness:
  "reachable (session_of (submit_question (Some ''What is the flag?'') round1)) \<and>
   length (answers (session_of (submit_question (Some ''What is the flag?'') round1))) = 1 \<and>
   length (asked_questions (session_of (submit_question (Some ''What is the flag?'') round1))) = 1 \<and>
   fst (answers (session_of (submit_question (Some ''What is the flag?'') round1)) ! 0) =
     asked_questions (session_of (submit_question (Some ''What is the flag?'') round1)) ! 0"
proof -
  let ?S = "session_of (submit_question (Some ''What is the flag?'') round1)"
  have r: "reachable ?S"
    using reachable_round1 by (rule r_question)
  have one: "length (answers ?S) = 1"
    by (simp add: flag_asked_in_round1)
  from answers_aligned_with_asked_questions [OF r] one
  have "length (asked_questions ?S) = 1" and "fst (answers ?S ! 0) = asked_questions ?S ! 0"
    by simp_all
  with r one show ?thesis by simp
qed

subsection \<open>Hints\<close>

lemma hints_inv: "reachable s \<Longrightarrow> distinct (previous_hints s)"
proof (induction rule: reachable.induct)
  case r_init
  show ?case by (simp add: init_session_def)
next
  case (r_start s clicked raw_data d r cu)
  then show ?case
    by (auto simp: start_game_def setup_new_country_def Let_def split: sum.splits)
next
  case (r_check s)
  then show ?case by (simp add: out_of_points_check_def)
next
  case (r_question s selected)
  then show ?case
    by (auto simp: submit_question_def split: option.splits attr.splits sum.splits)
next
  case (r_guess s guess reply)
  then show ?case
    by (auto simp: submit_guess_def wrong_guess_def Let_def split: option.splits attr.splits)
next
  case (r_score s clicked player)
  then show ?case by (simp add: leaderboard_block_def submit_score_def Let_def)
next
  case (r_again s)
  then show ?case by (simp add: play_again_def Let_def)
qed

lemma duplicate_hint_rejected:
  assumes "h \<in> set (previous_hints s)"
  shows "previous_hints (session_of (submit_guess guess (Some h) s)) = previous_hints s"
    and "Hint h \<notin> set (messages_of (submit_guess guess (Some h) s))"
    and "HintRequested c u \<in> set (messages_of (submit_guess guess (Some h) s)) \<Longrightarrow>
         AlreadySeenHint \<in> set (messages_of (submit_guess guess (Some h) s))"
  using assms
  by (auto simp: submit_guess_def wrong_guess_def Let_def split: option.splits attr.splits if_splits)

text \<open>
  Claim C8. In every reachable store the hint list holds no string twice. When the
  generator's reply is a hint already in the list, the guess block leaves the list as it
  was, does not show the reply as a hint, and, whenever it asked the generator, shows the
  already-seen warning.
\<close>

theorem hint_list_never_repeats:
  assumes "reachable s"
  shows "distinct (previous_hints s) \<and>
         (\<forall>guess h. h \<in> set (previous_hints s) \<longrightarrow>
            previous_hints (session_of (submit_guess guess (Some h) s)) = previous_hints s \<and>
            Hint h \<notin> set (messages_of (submit_guess guess (Some h) s)) \<and>
            ((\<exists>c u. HintRequested c u \<in> set (messages_of (submit_guess guess (Some h) s))) \<longrightarrow>
               AlreadySeenHint \<in> set (messages_of (submit_guess guess (Some h) s))))"
  using hints_inv [OF assms] duplicate_hint_rejected by blast

lemma tower_hint_in_round1:
  "submit_guess ''Spain'' (Some ''tower'') round1 =
     Done [WrongGuess, HintRequested ''France'' [], Hint ''tower'']
       (round1\<lparr>attempts := 1, points := 80, previous_hints := [''tower'']\<rparr>)"
  by (simp add: round1_eq sample_defs submit_guess_def wrong_guess_def lower_def lower_char_def upper_letters_def lower_letters_def
      strip_def isspace_def)

lemma tower_hint_again:
  "submit_guess ''Italy'' (Some ''tower'')
       (round1\<lparr>attempts := 1, points := 80, previous_hints := [''tower'']\<rparr>) =
     Done [WrongGuess, HintRequested ''France'' [''tower''], AlreadySeenHint]
       (round1\<lparr>attempts := 2, points := 60, previous_hints := [''tower'']\<rparr>)"
  by (simp add: round1_eq sample_defs submit_guess_def wrong_guess_def lower_def lower_char_def upper_letters_def lower_letters_def
      strip_def isspace_def)

text \<open>In the sample round the generator answers two wrong guesses with the same hint.\<close>

theorem hint_list_never_repeats_witness:
  "reachable (session_of (submit_guess ''Spain'' (Some ''tower'') round1)) \<and>
   previous_hints (session_of (submit_guess ''Spain'' (Some ''tower'') round1)) = [''tower''] \<and>
   previous_hints (session_of (submit_guess ''Italy'' (Some ''tower'')
     (session_of (submit_guess ''Spain'' (Some ''tower'') round1)))) = [''tower''] \<and>
   AlreadySeenHint \<in> set (messages_of (submit_guess ''Italy'' (Some ''tower'')
     (session_of (submit_guess ''Spain'' (Some ''tower'') round1))))"
proof -
  let ?S = "session_of (submit_guess ''Spain'' (Some ''tower'') round1)"
  have r: "reachable ?S"
    using reachable_round1 by (rule r_guess)
  have hs: "previous_hints ?S = [''tower'']"
    by (simp add: tower_hint_in_round1)
  then have mem: "''tower'' \<in> set (previous_hints ?S)"
    by simp
  have req: "\<exists>c u. HintRequested c u \<in> set (messages_of (submit_guess ''Italy'' (Some ''tower'') ?S))"
    by (simp add: tower_hint_in_round1 tower_hint_again)
  from hint_list_never_repeats [OF r] mem req
  have "previous_hints (session_of (submit_guess ''Italy'' (Some ''tower'') ?S)) = previous_hints ?S"
    and "AlreadySeenHint \<in> set (messages_of (submit_guess ''Italy'' (Some ''tower'') ?S))"
    by blast+
  with r hs show ?thesis by simp
qed

subsection \<open>Rejected questions\<close>

text \<open>
  Claim C5. Submitting a question that is already in the asked list, or that is not a key
  of the question table, shows the warning and leaves the whole store (points, asked
  list, answers list and the rest) as it was.
\<close>

theorem asked_or_unknown_question_rejected:
  assumes "q \<in> set (asked_questions s) \<or> q \<notin> set (map fst q_map)"
  shows "submit_question (Some q) s = Done [QuestionNoLongerAvailable] s"
  using assms by (auto simp: submit_question_def available_def)

text \<open>The flag question asked a second time, and a question the table does not have.\<close>

theorem asked_or_unknown_question_rejected_witness:
  "''What is the flag?'' \<in> set (asked_questions (round1\<lparr>asked_questions := [''What is the flag?'']\<rparr>)) \<and>
   submit_question (Some ''What is the flag?'') (round1\<lparr>asked_questions := [''What is the flag?'']\<rparr>) =
     Done [QuestionNoLongerAvailable] (round1\<lparr>asked_questions := [''What is the flag?'']\<rparr>) \<and>
   ''Is it big?'' \<notin> set (map fst q_map) \<and>
   submit_question (Some ''Is it big?'') round1 = Done [QuestionNoLongerAvailable] round1"
proof -
  have a: "''What is the flag?'' \<in> set (asked_questions (round1\<lparr>asked_questions := [''What is the flag?'']\<rparr>))"
    by simp
  have b: "''Is it big?'' \<notin> set (map fst q_map)"
    by (simp add: q_map_def)
  from a have a': "''What is the flag?'' \<in> set (asked_questions (round1\<lparr>asked_questions := [''What is the flag?'']\<rparr>))
      \<or> ''What is the flag?'' \<notin> set (map fst q_map)" ..
  from b have b': "''Is it big?'' \<in> set (asked_questions round1) \<or> ''Is it big?'' \<notin> set (map fst q_map)" ..
  show ?thesis
    using a b asked_or_unknown_question_rejected [OF a'] asked_or_unknown_question_rejected [OF b']
    by simp
qed

subsection \<open>Asking questions\<close>

lemma q_map_answers:
  assumes "q \<in> set (map fst q_map)"
  shows "\<exists>f a. map_of q_map q = Some f \<and> f (Some c) = Inr a"
  using assms by (auto simp: q_map_def on_secret_def)

lemma submit_question_ok:
  assumes "q \<in> set (available s)" and "secret s = Present (Some c)"
  shows "\<exists>f a. map_of q_map q = Some f \<and> f (Some c) = Inr a \<and>
           submit_question (Some q) s =
             Done [] (s\<lparr>answers := answers s @ [(q, a)],
                        asked_questions := asked_questions s @ [q],
                        points := points s - 2\<rparr>)"
proof -
  from assms(1) have "q \<in> set (map fst q_map)"
    by (simp add: available_def)
  then obtain f a where fa: "map_of q_map q = Some f" "f (Some c) = Inr a"
    using q_map_answers by blast
  with assms show ?thesis
    by (simp add: submit_question_def)
qed

lemma ask_all_Cons:
  "ask_all (q # qs) s = ask_all qs (session_of (submit_question (Some q) s))"
  by (simp add: ask_all_def)

lemma ask_all_points:
  assumes "distinct qs" and "set qs \<subseteq> set (available s)" and "secret s = Present (Some c)"
  shows "points (ask_all qs s) = points s - 2 * int (length qs) \<and>
         asked_questions (ask_all qs s) = asked_questions s @ qs"
  using assms
proof (induction qs arbitrary: s)
  case Nil
  show ?case by (simp add: ask_all_def)
next
  case (Cons q qs)
  let ?s1 = "session_of (submit_question (Some q) s)"
  from Cons.prems have q: "q \<in> set (available s)" by simp
  from submit_question_ok [OF q Cons.prems(3)] obtain a where
    s1: "?s1 = s\<lparr>answers := answers s @ [(q, a)],
                  asked_questions := asked_questions s @ [q], points := points s - 2\<rparr>"
    by auto
  have d: "distinct qs" using Cons.prems(1) by simp
  have sub: "set qs \<subseteq> set (available ?s1)"
    using Cons.prems(1,2) by (auto simp: s1 available_def)
  have sec: "secret ?s1 = Present (Some c)"
    using Cons.prems(3) by (simp add: s1)
  from Cons.IH [OF d sub sec] show ?case
    by (simp add: ask_all_Cons s1)
qed

text \<open>
  Claim C9. With a secret set, submitting a question that is still available succeeds: it
  takes exactly 2 points and appends the question and its answer (the value the question
  table gives for the secret) to the answers list, and the question to the asked list.
  Asking distinct available questions costs 2 points each; from 100 points, three of
  them leave 94.
\<close>

theorem question_costs_two_points:
  assumes "secret s = Present (Some c)" and "q \<in> set (available s)"
  shows "(\<exists>f a. map_of q_map q = Some f \<and> f (Some c) = Inr a \<and>
            submit_question (Some q) s =
              Done [] (s\<lparr>answers := answers s @ [(q, a)],
                         asked_questions := asked_questions s @ [q],
                         points := points s - 2\<rparr>)) \<and>
         (\<forall>qs. distinct qs \<and> set qs \<subseteq> set (available s) \<longrightarrow>
            points (ask_all qs s) = points s - 2 * int (length qs)) \<and>
         (\<forall>q2 q3. points s = 100 \<and> distinct [q, q2, q3] \<and>
            q2 \<in> set (available s) \<and> q3 \<in> set (available s) \<longrightarrow>
            points (ask_all [q, q2, q3] s) = 94)"
proof -
  have one: "\<exists>f a. map_of q_map q = Some f \<and> f (Some c) = Inr a \<and>
            submit_question (Some q) s =
              Done [] (s\<lparr>answers := answers s @ [(q, a)],
                         asked_questions := asked_questions s @ [q],
                         points := points s - 2\<rparr>)"
    using assms(2,1) by (rule submit_question_ok)
  have many: "points (ask_all qs s) = points s - 2 * int (length qs)"
    if "distinct qs" "set qs \<subseteq> set (available s)" for qs
    using ask_all_points [OF that assms(1)] by simp
  have three: "points (ask_all [q, q2, q3] s) = 94"
    if "points s = 100" "distinct [q, q2, q3]" "q2 \<in> set (available s)" "q3 \<in> set (available s)"
    for q2 q3
  proof -
    have "set [q, q2, q3] \<subseteq> set (available s)"
      using that assms(2) by simp
    from many [OF that(2) this] that(1) show ?thesis by simp
  qed
  from one many three show ?thesis by blast
qed

lemma available_round1: "available round1 = map fst q_map"
  by (simp add: available_def round1_eq init_session_def)

text \<open>Three questions in the sample round.\<close>

theorem question_costs_two_points_witness:
  "secret round1 = Present (Some secret_france) \<and> points round1 = 100 \<and>
   ''What is the flag?'' \<in> set (available round1) \<and>
   submit_question (Some ''What is the flag?'') round1 =
     Done [] (round1\<lparr>answers := answers round1 @ [(''What is the flag?'', ''Here is the flag:'')],
                     asked_questions := asked_questions round1 @ [''What is the flag?''],
                     points := points round1 - 2\<rparr>) \<and>
   points (ask_all [''What is the flag?'', ''Is it in Europe?'', ''Is it a UN member?''] round1) = 94"
proof -
  have s: "secret round1 = Present (Some secret_france)"
    by (simp add: round1_eq)
  have p: "points round1 = 100"
    by (simp add: round1_eq init_session_def)
  have q: "''What is the flag?'' \<in> set (available round1)"
    and q2: "''Is it in Europe?'' \<in> set (available round1)"
    and q3: "''Is it a UN member?'' \<in> set (available round1)"
    by (simp_all add: available_round1 q_map_def)
  have d: "distinct [''What is the flag?'', ''Is it in Europe?'', ''Is it a UN member?'']"
    by simp
  note t = question_costs_two_points [OF s q]
  from t obtain f a where fa: "map_of q_map ''What is the flag?'' = Some f" "f (Some secret_france) = Inr a"
    and ask: "submit_question (Some ''What is the flag?'') round1 =
       Done [] (round1\<lparr>answers := answers round1 @ [(''What is the flag?'', a)],
                     asked_questions := asked_questions round1 @ [''What is the flag?''],
                     points := points round1 - 2\<rparr>)"
    by blast
  from fa have a: "a = ''Here is the flag:''"
    by (auto simp: q_map_def)
  from t p d q2 q3
  have three: "points (ask_all [''What is the flag?'', ''Is it in Europe?'', ''Is it a UN member?''] round1) = 94"
    by blast
  from s p q ask a three show ?thesis by simp
qed

subsection \<open>Wrong guesses\<close>

lemma session_of_and_then:
  "session_of (and_then r f) = (case r of Done ms s \<Rightarrow> session_of (f s) | _ \<Rightarrow> session_of r)"
  by (simp add: and_then_def split: outcome.splits)

lemma reachable_replay:
  assumes "reachable s"
  shows "reachable (session_of (replay raw_data d r cu s))"
proof -
  have a: "reachable (play_again s)"
    using assms by (rule r_again)
  have b: "reachable (session_of (start_game False raw_data d r cu (play_again s)))"
    using a by (rule r_start)
  show ?thesis
  proof (cases "start_game False raw_data d r cu (play_again s)")
    case (Done ms s1)
    with b have "reachable s1" by simp
    then have "reachable (session_of (out_of_points_check s1))" by (rule r_check)
    with Done show ?thesis by (simp add: replay_def rerun_def session_of_and_then)
  next
    case (Stopped ms s1)
    with b show ?thesis by (simp add: replay_def rerun_def session_of_and_then)
  next
    case (Raised e s1)
    with b show ?thesis by (simp add: replay_def rerun_def session_of_and_then)
  qed
qed

lemma reachable_ask_all: "reachable s \<Longrightarrow> reachable (ask_all qs s)"
proof (induction qs arbitrary: s)
  case Nil
  then show ?case by (simp add: ask_all_def)
next
  case (Cons q qs)
  from Cons.prems have "reachable (session_of (submit_question (Some q) s))"
    by (rule r_question)
  then show ?case by (simp add: ask_all_Cons Cons.IH)
qed

lemma reachable_guess_wrong: "reachable s \<Longrightarrow> reachable (guess_wrong n s)"
proof (induction n arbitrary: s)
  case 0
  then show ?case by simp
next
  case (Suc n)
  from Suc.prems have "reachable (session_of (submit_guess ''Spain'' None s))"
    by (rule r_guess)
  then show ?case by (simp add: Suc.IH)
qed

lemma reachable_won1: "reachable won1"
  unfolding won1_def
  by (intro r_guess reachable_ask_all reachable_guess_wrong reachable_round1)

lemma reachable_round2: "reachable round2"
  unfolding round2_def
  by (intro reachable_ask_all reachable_replay reachable_won1)

lemma won1_eq:
  "won1 = round1\<lparr>game_started := False, points := 24, attempts := 3,
     answers := [(''Is it in Europe?'', ''Yes, it'' @ [CHR 0x27] @ ''s in Europe''),
       (''Is its population small, medium, or large?'', ''large''),
       (''Does it have a coastline?'', ''Yes''),
       (''Does it have more than 3 neighboring countries?'', ''Yes''),
       (''Is it a UN member?'', ''Yes''),
       (''What is the country'' @ [CHR 0x27] @ ''s capital city?'', ''Paris''),
       (''What is the country'' @ [CHR 0x27] @ ''s FIFA code?'', ''FRA''),
       (''What is the flag?'', ''Here is the flag:'')],
     asked_questions := map fst q_map\<rparr>"
  by (simp add: won1_def ask_all_def round1_eq sample_defs handler_defs)

lemma round2_eq:
  "round2 = round1\<lparr>points := 20, attempts := 3,
     answers := [(''Is it in Europe?'', ''Yes, it'' @ [CHR 0x27] @ ''s in Europe''),
       (''Is its population small, medium, or large?'', ''large'')],
     asked_questions := [''Is it in Europe?'', ''Is its population small, medium, or large?'']\<rparr>"
  by (simp add: round2_def won1_eq ask_all_def round1_eq sample_defs handler_defs)

lemma wrong_guess_effect:
  assumes "secret s = Present (Some c)" and "lower (strip guess) \<noteq> lower (s_name c)"
  shows "points (session_of (submit_guess guess reply s)) = points s - 20"
    and "attempts (session_of (submit_guess guess reply s)) = attempts s + 1"
    and "game_started (session_of (submit_guess guess reply s)) =
           (game_started s \<and> 0 < points s - 20 \<and> attempts s + 1 < 5)"
    and "(HintRequested (s_name c) (previous_hints s)
            \<in> set (messages_of (submit_guess guess reply s))) = (attempts s + 1 < 5)"
  using assms
  by (auto simp: submit_guess_def wrong_guess_def Let_def split: option.splits)

text \<open>
  Claim C1. A wrong guess takes 20 points and counts one more wrong guess, and the round
  is lost when the points reach 0 or the count reaches 5. The claim says that no hint is
  requested in either case; the code skips the request only when the count reaches 5.
  In the store \<open>round2\<close>, reached by play (20 points, 3 wrong guesses), a wrong guess
  brings the points to 0 and ends the round, and the generator is still asked and its
  hint appended.
\<close>

theorem hint_requested_when_points_run_out:
  "reachable round2 \<and> game_started round2 \<and> points round2 = 20 \<and> attempts round2 = 3 \<and>
   submit_guess ''Spain'' (Some ''tower'') round2 =
     Done [WrongGuess, OutOfPoints, HintRequested ''France'' [], Hint ''tower'']
       (round2\<lparr>attempts := 4, points := 0, game_started := False,
               previous_hints := [''tower'']\<rparr>)"
  using reachable_round2
  by (simp add: round2_eq round1_eq sample_defs submit_guess_def wrong_guess_def lower_def
      lower_char_def upper_letters_def lower_letters_def strip_def isspace_def)

text \<open>The same in a whole run of the question block at \<open>round2\<close>, with both buttons
  pressed: the question takes its 2 points first, the round is lost at -2 points, and the
  hint is requested and appended.\<close>

lemma hint_requested_in_question_run:
  "question_block True (Some ''What is the flag?'') True ''Spain'' (Some ''tower'') round2 =
     Done [WrongGuess, OutOfPoints, HintRequested ''France'' [], Hint ''tower'']
       (round2\<lparr>answers := answers round2 @ [(''What is the flag?'', ''Here is the flag:'')],
               asked_questions := asked_questions round2 @ [''What is the flag?''],
               attempts := 4, points := - 2, game_started := False,
               previous_hints := [''tower'']\<rparr>)"
  by (simp add: round2_eq round1_eq sample_defs question_block_def and_then_def show_answers_def
      submit_question_def available_def q_map_def submit_guess_def wrong_guess_def lower_def
      lower_char_def upper_letters_def lower_letters_def strip_def isspace_def)

subsection \<open>The right guess\<close>

text \<open>Lower-casing and stripping beyond ASCII: an accented capital, and a no-break space
  in front of a guess.\<close>

lemma lower_accented:
  "lower (''R'' @ [CHR 0xC9] @ ''UNION'') = lower (''R'' @ [CHR 0xE9] @ ''union'')"
  by (simp add: lower_def lower_char_def upper_letters_def lower_letters_def)

lemma strip_no_break_space: "strip ([CHR 0xA0] @ ''France'' @ [CHR 0x85]) = ''France''"
  by (simp add: strip_def isspace_def)

text \<open>The guess body alone: on a right guess it clears the started flag and writes
  nothing else.\<close>

lemma correct_guess_effect:
  assumes "secret s = Present (Some c)"
    and "lower (strip guess) = lower (s_name c)"
  shows "submit_guess guess reply s = Done [Correct] (s\<lparr>game_started := False\<rparr>)"
  using assms by (simp add: submit_guess_def)

text \<open>The guess body runs only inside the question block.\<close>

lemma question_block_not_clicked:
  "question_block False selected clicked_guess guess reply s = Done [] s"
  by (simp add: question_block_def)

lemma show_answers_keeps: "session_of (show_answers s) = s"
  by (simp add: show_answers_def split: attr.splits option.splits)

lemma reachable_question_block:
  assumes "reachable s"
  shows "reachable (session_of (question_block cq selected cg guess reply s))"
proof (cases cq)
  case False
  with assms show ?thesis by (simp add: question_block_def)
next
  case True
  let ?s1 = "session_of (submit_question selected s)"
  let ?ask = "and_then (submit_question selected s) show_answers"
  have r1: "reachable ?s1"
    using assms by (rule r_question)
  have r2: "reachable (session_of (submit_guess guess reply ?s1))"
    using r1 by (rule r_guess)
  have s1: "session_of ?ask = ?s1"
    by (cases "submit_question selected s") (simp_all add: session_of_and_then show_answers_keeps)
  show ?thesis
  proof (cases ?ask)
    case (Done ms s2)
    with s1 have "s2 = ?s1" by simp
    with Done True r1 r2 show ?thesis
      by (cases cg) (simp_all add: question_block_def session_of_and_then)
  next
    case (Stopped ms s2)
    with s1 True r1 show ?thesis
      by (simp add: question_block_def session_of_and_then)
  next
    case (Raised e s2)
    with s1 True r1 show ?thesis
      by (simp add: question_block_def session_of_and_then)
  qed
qed

text \<open>A right guess in a run of the question block whose question is still available:
  the run first takes the 2 points of the question, then ends the game.\<close>

lemma correct_guess_in_question_run:
  assumes "secret s = Present (Some c)" and "lower (strip guess) = lower (s_name c)"
    and "q \<in> set (available s)"
  shows "\<exists>a. question_block True (Some q) True guess reply s =
           Done [Correct]
             (s\<lparr>answers := answers s @ [(q, a)], asked_questions := asked_questions s @ [q],
                points := points s - 2, game_started := False\<rparr>)"
proof -
  from submit_question_ok [OF assms(3,1)] obtain a where
    ask: "submit_question (Some q) s =
            Done [] (s\<lparr>answers := answers s @ [(q, a)],
                       asked_questions := asked_questions s @ [q], points := points s - 2\<rparr>)"
    by blast
  let ?s1 = "s\<lparr>answers := answers s @ [(q, a)],
               asked_questions := asked_questions s @ [q], points := points s - 2\<rparr>"
  have sh: "show_answers ?s1 = Done [] ?s1"
    using assms(1) by (simp add: show_answers_def)
  have sec: "secret ?s1 = Present (Some c)"
    using assms(1) by simp
  have g: "submit_guess guess reply ?s1 = Done [Correct] (?s1\<lparr>game_started := False\<rparr>)"
    using sec assms(2) by (rule correct_guess_effect)
  show ?thesis
    by (rule exI [of _ a]) (simp add: question_block_def and_then_def ask sh g)
qed

text \<open>
  Claim C6. The branch for the right guess does what the claim says (it clears the
  started flag and takes no points), but it sits inside the body of the question button.
  In the sample round at 100 points, a run with only the guess button pressed does not
  look at the right guess, and the game goes on; a run with both buttons pressed asks
  the selected question first, so that the game is won with 98 points.
\<close>

theorem right_guess_needs_question_run:
  "game_started round1 \<and> points round1 = 100 \<and>
   secret round1 = Present (Some secret_france) \<and>
   lower (strip ''France'') = lower (s_name secret_france) \<and>
   question_block False (Some ''What is the flag?'') True ''France'' None round1 =
     Done [] round1 \<and>
   question_block True (Some ''What is the flag?'') True ''France'' None round1 =
     Done [Correct]
       (round1\<lparr>answers := [(''What is the flag?'', ''Here is the flag:'')],
               asked_questions := [''What is the flag?''], points := 98,
               game_started := False\<rparr>)"
  by (simp add: round1_eq sample_defs question_block_def and_then_def show_answers_def
      submit_question_def available_def q_map_def submit_guess_def lower_def lower_char_def
      upper_letters_def lower_letters_def strip_def isspace_def)

subsection \<open>Country selection\<close>

lemma random_choice_mem: "random_choice r xs = Inr x \<Longrightarrow> x \<in> set xs"
  by (auto simp: random_choice_def split: if_splits)

lemma select_country_matches:
  assumes "select_country raw_data d r = Inr e"
  shows "e \<in> set raw_data \<and> classify_population (get_population e) = target d"
proof -
  from assms have "e \<in> set (get_filtered_country_by_difficulty raw_data d)"
    unfolding select_country_def by (rule random_choice_mem)
  then show ?thesis
    by (simp add: get_filtered_country_by_difficulty_def)
qed

lemma select_country_fails_iff:
  "(select_country raw_data d r = Inl IndexError) =
     (get_filtered_country_by_difficulty raw_data d = [])"
  by (simp add: select_country_def random_choice_def)

lemma select_country_total:
  "get_filtered_country_by_difficulty raw_data d \<noteq> [] \<Longrightarrow> \<exists>e. select_country raw_data d r = Inr e"
  by (simp add: select_country_def random_choice_def)

lemma start_game_no_country:
  assumes "get_filtered_country_by_difficulty raw_data d = []"
  shows "start_game True raw_data d r cu s = Raised IndexError (s\<lparr>replay_requested := False\<rparr>)"
  using assms
  by (simp add: start_game_def setup_new_country_def select_country_def random_choice_def)

text \<open>
  Claim C3, as stated, asks for a signalled, handled error when no country is eligible.
  On the sample catalog no country is small, and a hard round start leaves the script
  with the IndexError of \<^verbatim>\<open>random.choice\<close>, which nothing catches.
\<close>

theorem no_eligible_country_is_uncaught_counterexample:
  "get_filtered_country_by_difficulty [france] Hard = [] \<and>
   start_game True [france] Hard 0 no_culture init_session = Raised IndexError init_session"
  by (simp add: sample_defs handler_defs)

text \<open>
  Claim C3, amended. For every difficulty and catalog, a country that the selection
  returns is a record of the catalog whose population class (small below 1,000,000,
  medium below 30,000,000, large otherwise) is the one the difficulty requires; the
  selection returns a country whenever some record is eligible; and when none is, it
  returns no default but raises IndexError, which leaves the start block uncaught with
  only the replay flag cleared.
\<close>

theorem selection_matches_difficulty:
  "(\<forall>e. select_country raw_data d r = Inr e \<longrightarrow>
        e \<in> set raw_data \<and> classify_population (get_population e) = target d) \<and>
   (get_filtered_country_by_difficulty raw_data d \<noteq> [] \<longrightarrow>
        (\<exists>e. select_country raw_data d r = Inr e)) \<and>
   (get_filtered_country_by_difficulty raw_data d = [] \<longrightarrow>
        select_country raw_data d r = Inl IndexError \<and>
        start_game True raw_data d r cu s = Raised IndexError (s\<lparr>replay_requested := False\<rparr>))"
  using select_country_matches select_country_total select_country_fails_iff
    start_game_no_country by blast

lemma select_france: "select_country [france] Easy 0 = Inr france"
  by (simp add: sample_defs handler_defs)

text \<open>The sample catalog at the easy and the medium difficulty.\<close>

theorem selection_matches_difficulty_witness:
  "select_country [france] Easy 0 = Inr france \<and>
   classify_population (get_population france) = ''large'' \<and>
   get_filtered_country_by_difficulty [france] Medium = [] \<and>
   select_country [france] Medium 0 = Inl IndexError \<and>
   start_game True [france] Medium 0 no_culture round1 = Raised IndexError round1"
proof -
  have e: "get_filtered_country_by_difficulty [france] Medium = []"
    by (simp add: sample_defs handler_defs)
  have r: "round1\<lparr>replay_requested := False\<rparr> = round1"
    by (simp add: round1_eq init_session_def)
  from selection_matches_difficulty [of "[france]" Easy 0 no_culture round1] select_france
  have a: "classify_population (get_population france) = ''large''"
    by simp
  from selection_matches_difficulty [of "[france]" Medium 0 no_culture round1] e r
  have b: "select_country [france] Medium 0 = Inl IndexError"
    and c: "start_game True [france] Medium 0 no_culture round1 = Raised IndexError round1"
    by simp_all
  from select_france a e b c show ?thesis by simp
qed

subsection \<open>Round start and replay\<close>

lemma start_game_ok:
  assumes "clicked \<or> replay_requested s"
    and "select_country raw_data d r = Inr e" and "make_secret e cu = Inr sc"
  shows "start_game clicked raw_data d r cu s =
           Done [NewCountryLoaded]
             (s\<lparr>replay_requested := False, secret := Present (Some sc), answers := [],
                asked_questions := [], previous_hints := [], game_started := True\<rparr>)"
  using assms by (auto simp: start_game_def setup_new_country_def)

lemma start_game_keeps:
  "points (session_of (start_game clicked raw_data d r cu s)) = points s"
  "attempts (session_of (start_game clicked raw_data d r cu s)) = attempts s"
  "leaderboard (session_of (start_game clicked raw_data d r cu s)) = leaderboard s"
  by (auto simp: start_game_def setup_new_country_def Let_def split: sum.splits)

lemma play_again_lost:
  "points s \<le> 0 \<or> 5 \<le> attempts s \<Longrightarrow>
   play_again s = s\<lparr>points := 100, attempts := 0, secret := Present None,
                     replay_requested := True, game_started := False\<rparr>"
  by (simp add: play_again_def)

lemma play_again_won:
  "\<not> (points s \<le> 0 \<or> 5 \<le> attempts s) \<Longrightarrow>
   play_again s = s\<lparr>secret := Present None, replay_requested := True, game_started := False\<rparr>"
  by (simp add: play_again_def)

lemma play_again_points_positive: "0 < points (play_again s)"
  by (simp add: play_again_def Let_def)

lemma replay_keeps:
  "points (session_of (replay raw_data d r cu s)) = points (play_again s)"
  "attempts (session_of (replay raw_data d r cu s)) = attempts (play_again s)"
  "leaderboard (session_of (replay raw_data d r cu s)) = leaderboard s"
proof -
  let ?o = "start_game False raw_data d r cu (play_again s)"
  have k: "points (session_of ?o) = points (play_again s)"
    "attempts (session_of ?o) = attempts (play_again s)"
    "leaderboard (session_of ?o) = leaderboard (play_again s)"
    by (rule start_game_keeps)+
  have l: "leaderboard (play_again s) = leaderboard s"
    by (simp add: play_again_def Let_def)
  show "points (session_of (replay raw_data d r cu s)) = points (play_again s)"
    using k by (cases ?o) (simp_all add: replay_def rerun_def session_of_and_then out_of_points_check_def)
  show "attempts (session_of (replay raw_data d r cu s)) = attempts (play_again s)"
    using k by (cases ?o) (simp_all add: replay_def rerun_def session_of_and_then out_of_points_check_def)
  show "leaderboard (session_of (replay raw_data d r cu s)) = leaderboard s"
    using k l by (cases ?o) (simp_all add: replay_def rerun_def session_of_and_then out_of_points_check_def)
qed

lemma replay_ok:
  assumes "select_country raw_data d r = Inr e" and "make_secret e cu = Inr sc"
  shows "replay raw_data d r cu s =
           Done [NewCountryLoaded]
             ((play_again s)\<lparr>replay_requested := False, secret := Present (Some sc),
                answers := [], asked_questions := [], previous_hints := [],
                game_started := True\<rparr>)"
proof -
  have rr: "False \<or> replay_requested (play_again s)"
    by (simp add: play_again_def Let_def)
  note st = start_game_ok [OF rr assms]
  have pos: "0 < points (play_again s)"
    by (rule play_again_points_positive)
  show ?thesis
    using pos by (simp add: replay_def rerun_def st and_then_def out_of_points_check_def)
qed

lemma make_secret_france: "make_secret france no_culture = Inr secret_france"
  by (simp add: sample_defs make_secret_def classify_population_def get_population_def
      first_language_def)

lemma lost1_eq: "lost1 = round1\<lparr>points := 0, attempts := 5, game_started := False\<rparr>"
  by (simp add: lost1_def round1_eq sample_defs submit_guess_def wrong_guess_def lower_def
      lower_char_def upper_letters_def lower_letters_def strip_def isspace_def)

lemma reachable_lost1: "reachable lost1"
  unfolding lost1_def by (intro reachable_guess_wrong reachable_round1)

text \<open>
  Claim C2, as stated, has the round start reset the wrong-guess count, and the points
  after a lost round. After the won round \<open>won1\<close> (3 wrong guesses) the count is still 3
  when the next round starts, by the start button or by a replay; after the lost round
  \<open>lost1\<close> the start button leaves 0 points and 5 wrong guesses.
\<close>

theorem round_start_keeps_wrong_guess_count_counterexample:
  "reachable won1 \<and> \<not> game_started won1 \<and> points won1 = 24 \<and> attempts won1 = 3 \<and>
   attempts (session_of (start_game True [france] Easy 0 no_culture won1)) = 3 \<and>
   attempts (session_of (replay [france] Easy 0 no_culture won1)) = 3 \<and>
   reachable lost1 \<and> \<not> game_started lost1 \<and> points lost1 = 0 \<and> attempts lost1 = 5 \<and>
   points (session_of (start_game True [france] Easy 0 no_culture lost1)) = 0 \<and>
   attempts (session_of (start_game True [france] Easy 0 no_culture lost1)) = 5"
  using reachable_won1 reachable_lost1
  by (simp add: start_game_keeps replay_keeps play_again_def won1_eq lost1_eq)

text \<open>
  Claim C2, amended. A round start whose country set-up succeeds empties the answers, the
  asked-questions list and the hint list, sets the started flag and installs the secret
  of a newly drawn eligible country; it leaves the points and the wrong-guess count as
  they are. They are reset, to 100 and 0, only by a replay and only when the round
  before was lost (no points left or five wrong guesses).
\<close>

theorem round_start_resets_lists_only:
  assumes "clicked \<or> replay_requested s"
    and "select_country raw_data d r = Inr e" and "make_secret e cu = Inr sc"
  shows "start_game clicked raw_data d r cu s =
           Done [NewCountryLoaded]
             (s\<lparr>replay_requested := False, secret := Present (Some sc), answers := [],
                asked_questions := [], previous_hints := [], game_started := True\<rparr>) \<and>
         e \<in> set raw_data \<and> classify_population (get_population e) = target d \<and>
         points (session_of (start_game clicked raw_data d r cu s)) = points s \<and>
         attempts (session_of (start_game clicked raw_data d r cu s)) = attempts s \<and>
         points (session_of (replay raw_data d r cu s)) =
           (if points s \<le> 0 \<or> 5 \<le> attempts s then 100 else points s) \<and>
         attempts (session_of (replay raw_data d r cu s)) =
           (if points s \<le> 0 \<or> 5 \<le> attempts s then 0 else attempts s)"
proof -
  have a: "start_game clicked raw_data d r cu s =
           Done [NewCountryLoaded]
             (s\<lparr>replay_requested := False, secret := Present (Some sc), answers := [],
                asked_questions := [], previous_hints := [], game_started := True\<rparr>)"
    using assms by (rule start_game_ok)
  have b: "e \<in> set raw_data \<and> classify_population (get_population e) = target d"
    using assms(2) by (rule select_country_matches)
  have c: "points (session_of (replay raw_data d r cu s)) =
           (if points s \<le> 0 \<or> 5 \<le> attempts s then 100 else points s)"
    by (simp add: replay_keeps play_again_def)
  have d: "attempts (session_of (replay raw_data d r cu s)) =
           (if points s \<le> 0 \<or> 5 \<le> attempts s then 0 else attempts s)"
    by (simp add: replay_keeps play_again_def)
  from a b c d show ?thesis
    by (simp add: start_game_keeps)
qed

text \<open>A start after the won sample round.\<close>

theorem round_start_resets_lists_only_witness:
  "select_country [france] Easy 0 = Inr france \<and>
   make_secret france no_culture = Inr secret_france \<and>
   start_game True [france] Easy 0 no_culture won1 =
     Done [NewCountryLoaded]
       (won1\<lparr>replay_requested := False, secret := Present (Some secret_france), answers := [],
             asked_questions := [], previous_hints := [], game_started := True\<rparr>) \<and>
   points (session_of (start_game True [france] Easy 0 no_culture won1)) = 24 \<and>
   attempts (session_of (start_game True [france] Easy 0 no_culture won1)) = 3"
proof -
  have c: "True \<or> replay_requested won1" by simp
  have p: "points won1 = 24" "attempts won1 = 3"
    by (simp_all add: won1_eq)
  from round_start_resets_lists_only [OF c select_france make_secret_france] p
    select_france make_secret_france
  show ?thesis by simp
qed

text \<open>
  Claim C4. After a lost round (no points left or five wrong guesses) the replay handler
  sets the points to 100 and the wrong-guess count to 0; otherwise it keeps both and
  writes only the secret and the two flags. The run it triggers changes neither again,
  keeps the leaderboard, and, when its country set-up succeeds, installs the new secret
  and empties the answers, asked-questions and hint lists.
\<close>

theorem replay_resets_after_loss_only:
  "(points s \<le> 0 \<or> 5 \<le> attempts s \<longrightarrow>
      play_again s = s\<lparr>points := 100, attempts := 0, secret := Present None,
                        replay_requested := True, game_started := False\<rparr> \<and>
      points (session_of (replay raw_data d r cu s)) = 100 \<and>
      attempts (session_of (replay raw_data d r cu s)) = 0) \<and>
   (\<not> (points s \<le> 0 \<or> 5 \<le> attempts s) \<longrightarrow>
      play_again s = s\<lparr>secret := Present None, replay_requested := True,
                        game_started := False\<rparr> \<and>
      points (session_of (replay raw_data d r cu s)) = points s \<and>
      attempts (session_of (replay raw_data d r cu s)) = attempts s) \<and>
   leaderboard (session_of (replay raw_data d r cu s)) = leaderboard s \<and>
   (\<forall>e sc. select_country raw_data d r = Inr e \<and> make_secret e cu = Inr sc \<longrightarrow>
      replay raw_data d r cu s =
        Done [NewCountryLoaded]
          ((play_again s)\<lparr>replay_requested := False, secret := Present (Some sc),
             answers := [], asked_questions := [], previous_hints := [],
             game_started := True\<rparr>))"
proof -
  have a: "points s \<le> 0 \<or> 5 \<le> attempts s \<longrightarrow>
      play_again s = s\<lparr>points := 100, attempts := 0, secret := Present None,
                        replay_requested := True, game_started := False\<rparr> \<and>
      points (session_of (replay raw_data d r cu s)) = 100 \<and>
      attempts (session_of (replay raw_data d r cu s)) = 0"
    by (simp add: replay_keeps play_again_lost)
  have b: "\<not> (points s \<le> 0 \<or> 5 \<le> attempts s) \<longrightarrow>
      play_again s = s\<lparr>secret := Present None, replay_requested := True,
                        game_started := False\<rparr> \<and>
      points (session_of (replay raw_data d r cu s)) = points s \<and>
      attempts (session_of (replay raw_data d r cu s)) = attempts s"
    by (simp add: replay_keeps play_again_won)
  have c: "leaderboard (session_of (replay raw_data d r cu s)) = leaderboard s"
    by (rule replay_keeps)
  from a b c replay_ok show ?thesis by blast
qed

text \<open>Replays after the lost and after the won sample round.\<close>

theorem replay_resets_after_loss_only_witness:
  "points lost1 = 0 \<and> attempts lost1 = 5 \<and>
   points (session_of (replay [france] Easy 0 no_culture lost1)) = 100 \<and>
   attempts (session_of (replay [france] Easy 0 no_culture lost1)) = 0 \<and>
   points won1 = 24 \<and> attempts won1 = 3 \<and>
   points (session_of (replay [france] Easy 0 no_culture won1)) = 24 \<and>
   attempts (session_of (replay [france] Easy 0 no_culture won1)) = 3 \<and>
   replay [france] Easy 0 no_culture won1 =
     Done [NewCountryLoaded]
       ((play_again won1)\<lparr>replay_requested := False, secret := Present (Some secret_france),
          answers := [], asked_questions := [], previous_hints := [], game_started := True\<rparr>)"
proof -
  have l: "points lost1 = 0" "attempts lost1 = 5"
    by (simp_all add: lost1_eq)
  have w: "points won1 = 24" "attempts won1 = 3"
    by (simp_all add: won1_eq)
  note tl = replay_resets_after_loss_only [of lost1 "[france]" Easy 0 no_culture]
  note tw = replay_resets_after_loss_only [of won1 "[france]" Easy 0 no_culture]
  from tl l have a: "points (session_of (replay [france] Easy 0 no_culture lost1)) = 100"
    "attempts (session_of (replay [france] Easy 0 no_culture lost1)) = 0"
    by simp_all
  from tw w have b: "points (session_of (replay [france] Easy 0 no_culture won1)) = 24"
    "attempts (session_of (replay [france] Easy 0 no_culture won1)) = 3"
    by simp_all
  from tw select_france make_secret_france
  have c: "replay [france] Easy 0 no_culture won1 =
     Done [NewCountryLoaded]
       ((play_again won1)\<lparr>replay_requested := False, secret := Present (Some secret_france),
          answers := [], asked_questions := [], previous_hints := [], game_started := True\<rparr>)"
    by blast
  from l w a b c show ?thesis by simp
qed

subsection \<open>Leaderboard\<close>

lemma sorted_reverse_descending: "sorted_wrt (\<ge>) (map key (sorted_reverse key xs))"
proof -
  have "sorted (map key (sort_key key (rev xs)))"
    by simp
  then have "sorted_wrt (\<ge>) (rev (map key (sort_key key (rev xs))))"
    by (simp add: sorted_wrt_rev)
  then show ?thesis
    by (simp add: sorted_reverse_def rev_map)
qed

lemma sorted_reverse_id:
  assumes "sorted_wrt (\<ge>) (map key xs)"
  shows "sorted_reverse key xs = xs"
proof -
  from assms have "sorted (rev (map key xs))"
    by (simp add: sorted_wrt_rev)
  then have "sorted (map key (rev xs))"
    by (simp add: rev_map)
  then have "sort_key key (rev xs) = rev xs"
    by (rule sort_key_id_if_sorted)
  then show ?thesis
    by (simp add: sorted_reverse_def)
qed

lemma sorted_reverse_stable:
  "filter (\<lambda>e. key e = k) (sorted_reverse key xs) = filter (\<lambda>e. key e = k) xs"
proof -
  have "filter (\<lambda>e. key e = k) (sorted_reverse key xs) =
        rev (filter (\<lambda>e. key e = k) (sort_key key (rev xs)))"
    by (simp add: sorted_reverse_def rev_filter)
  also have "\<dots> = rev (filter (\<lambda>e. key e = k) (rev xs))"
    by (simp only: sort_key_stable)
  also have "\<dots> = filter (\<lambda>e. key e = k) xs"
    by (simp add: rev_filter)
  finally show ?thesis .
qed

lemma sorted_reverse_length: "length (sorted_reverse key xs) = length xs"
  by (simp add: sorted_reverse_def)

lemma fold_max_Max: "fold max xs (a :: int) = Max (set (a # xs))"
  by (simp only: Max.set_eq_fold)

lemma fold_max_ge: "x \<in> set (a # xs) \<Longrightarrow> x \<le> fold max xs (a :: int)"
  unfolding fold_max_Max by (rule Max_ge) simp

lemma fold_max_mem: "fold max xs (a :: int) \<in> set (a # xs)"
  unfolding fold_max_Max by (rule Max_in) simp_all

text \<open>The leaderboard after a submission under a non-empty name, in its three cases.\<close>

lemma submit_score_new:
  assumes "player \<noteq> []" and "player \<notin> fst ` set (leaderboard s)"
  shows "leaderboard (submit_score player s) =
           take 5 (sorted_reverse snd (leaderboard s @ [(player, points s)]))"
proof -
  have "filter (\<lambda>e. fst e = player) (leaderboard s) = []"
    using assms(2) by (auto simp: filter_empty_conv)
  with assms(1) show ?thesis
    by (simp add: submit_score_def)
qed

lemma submit_score_not_better:
  assumes "player \<noteq> []" and "(player, old) \<in> set (leaderboard s)" and "points s \<le> old"
  shows "leaderboard (submit_score player s) = take 5 (sorted_reverse snd (leaderboard s))"
proof -
  let ?ex = "filter (\<lambda>e. fst e = player) (leaderboard s)"
  from assms(2) have m: "(player, old) \<in> set ?ex" by simp
  then obtain e es where ex: "?ex = e # es"
    by (cases ?ex) auto
  from m ex have "old \<in> set (snd e # map snd es)"
    by (metis image_eqI list.simps(9) set_map snd_conv)
  then have "old \<le> fold max (map snd es) (snd e)"
    by (rule fold_max_ge)
  with assms(3) have "\<not> fold max (map snd es) (snd e) < points s"
    by simp
  with assms(1) ex show ?thesis
    by (simp add: submit_score_def)
qed

lemma submit_score_better:
  assumes "player \<noteq> []" and "player \<in> fst ` set (leaderboard s)"
    and "\<And>old. (player, old) \<in> set (leaderboard s) \<Longrightarrow> old < points s"
  shows "leaderboard (submit_score player s) =
           take 5 (sorted_reverse snd
             (filter (\<lambda>e. fst e \<noteq> player) (leaderboard s) @ [(player, points s)]))"
proof -
  let ?ex = "filter (\<lambda>e. fst e = player) (leaderboard s)"
  from assms(2) have "?ex \<noteq> []"
    by (auto simp: filter_empty_conv)
  then obtain e es where ex: "?ex = e # es"
    by (cases ?ex) auto
  have "fold max (map snd es) (snd e) \<in> set (snd e # map snd es)"
    by (rule fold_max_mem)
  then have "fold max (map snd es) (snd e) \<in> snd ` set ?ex"
    by (simp add: ex)
  then obtain x where x: "x \<in> set ?ex" "snd x = fold max (map snd es) (snd e)"
    by auto
  from x(1) have "x \<in> set (leaderboard s) \<and> fst x = player"
    by simp
  with x(2) have "(player, fold max (map snd es) (snd e)) \<in> set (leaderboard s)"
    by (metis prod.collapse)
  then have "fold max (map snd es) (snd e) < points s"
    by (rule assms(3))
  with assms(1) ex show ?thesis
    by (simp add: submit_score_def)
qed

lemma submit_score_bounded:
  assumes "player \<noteq> []"
  shows "length (leaderboard (submit_score player s)) \<le> 5 \<and>
         sorted_wrt (\<ge>) (map snd (leaderboard (submit_score player s)))"
proof -
  obtain lb1 where "leaderboard (submit_score player s) = take 5 (sorted_reverse snd lb1)"
    using assms by (simp add: submit_score_def Let_def)
  then show ?thesis
    by (simp add: take_map [symmetric] sorted_reverse_descending)
qed

lemma submit_score_empty_name: "submit_score [] s = s"
  by (simp add: submit_score_def)

lemma leaderboard_inv:
  "reachable s \<Longrightarrow>
   length (leaderboard s) \<le> 5 \<and> sorted_wrt (\<ge>) (map snd (leaderboard s))"
proof (induction rule: reachable.induct)
  case r_init
  show ?case by (simp add: init_session_def)
next
  case (r_start s clicked raw_data d r cu)
  then show ?case by (simp add: start_game_keeps)
next
  case (r_check s)
  then show ?case by (simp add: out_of_points_check_def)
next
  case (r_question s selected)
  then show ?case
    by (auto simp: submit_question_def split: option.splits attr.splits sum.splits)
next
  case (r_guess s guess reply)
  then show ?case by (simp add: submit_guess_keeps)
next
  case (r_score s clicked player)
  show ?case
  proof (cases "player = []")
    case True
    with r_score.IH show ?thesis
      by (simp add: leaderboard_block_def submit_score_empty_name)
  next
    case False
    from submit_score_bounded [OF False] r_score.IH show ?thesis
      by (simp add: leaderboard_block_def)
  qed
next
  case (r_again s)
  then show ?case by (simp add: play_again_def Let_def)
qed

lemma sorted_reverse_filter:
  "filter P (sorted_reverse key xs) = sorted_reverse key (filter P xs)"
proof -
  have "filter P (sorted_reverse key xs) = rev (filter P (sort_key key (rev xs)))"
    unfolding sorted_reverse_def by (rule rev_filter [symmetric])
  also have "\<dots> = rev (sort_key key (filter P (rev xs)))"
    by (subst filter_sort) (rule refl)
  also have "\<dots> = sorted_reverse key (filter P xs)"
    unfolding sorted_reverse_def by (subst rev_filter) (rule refl)
  finally show ?thesis .
qed

lemma sorted_reverse_single: "sorted_reverse key [x] = [x]"
  by (simp add: sorted_reverse_def)

lemma submit_score_replaces:
  assumes "player \<noteq> []" and "player \<in> fst ` set (leaderboard s)"
    and "\<And>old. (player, old) \<in> set (leaderboard s) \<Longrightarrow> old < points s"
    and "length (leaderboard s) \<le> 5"
  shows "leaderboard (submit_score player s) =
           sorted_reverse snd
             (filter (\<lambda>e. fst e \<noteq> player) (leaderboard s) @ [(player, points s)])"
    and "filter (\<lambda>e. fst e = player) (leaderboard (submit_score player s)) =
           [(player, points s)]"
proof -
  let ?L = "filter (\<lambda>e. fst e \<noteq> player) (leaderboard s) @ [(player, points s)]"
  from assms(2) obtain x where "x \<in> set (leaderboard s)" and "\<not> fst x \<noteq> player"
    by auto
  then have "length (filter (\<lambda>e. fst e \<noteq> player) (leaderboard s)) < length (leaderboard s)"
    by (rule length_filter_less)
  with assms(4) have "length ?L \<le> 5"
    by simp
  then have t: "take 5 (sorted_reverse snd ?L) = sorted_reverse snd ?L"
    by (simp add: sorted_reverse_length)
  from submit_score_better [OF assms(1,2,3)] t
  show a: "leaderboard (submit_score player s) = sorted_reverse snd ?L"
    by simp
  have "filter (\<lambda>e. fst e = player) ?L = [(player, points s)]"
    by (simp add: filter_empty_conv)
  then show "filter (\<lambda>e. fst e = player) (leaderboard (submit_score player s)) =
           [(player, points s)]"
    by (simp only: a sorted_reverse_filter sorted_reverse_single)
qed

lemma submit_score_keeps:
  assumes "player \<noteq> []" and "(player, old) \<in> set (leaderboard s)" and "points s \<le> old"
    and "length (leaderboard s) \<le> 5" and "sorted_wrt (\<ge>) (map snd (leaderboard s))"
  shows "leaderboard (submit_score player s) = leaderboard s"
  using submit_score_not_better [OF assms(1,2,3)] assms(4) sorted_reverse_id [OF assms(5)]
  by simp

text \<open>
  Claim C7, as stated, makes a submission under a blank name a no-op. After the won
  sample round, with an empty leaderboard, the name of one space is stored with the
  score.
\<close>

theorem blank_name_is_stored_counterexample:
  "\<not> game_started won1 \<and> secret won1 \<noteq> Missing \<and> leaderboard won1 = [] \<and>
   leaderboard_block True '' '' won1 = Done [] (won1\<lparr>leaderboard := [('' '', 24)]\<rparr>)"
  by (simp add: won1_eq round1_eq init_session_def leaderboard_block_def submit_score_def
      sorted_reverse_def)

lemma ada_lost_eq:
  "ada_lost = round1\<lparr>points := 0, attempts := 5, game_started := False,
                      leaderboard := [(''Ada'', 0)]\<rparr>"
  by (simp add: ada_lost_def lost1_eq round1_eq init_session_def leaderboard_block_def
      submit_score_def sorted_reverse_def)

lemma ada_won_eq:
  "ada_won = round1\<lparr>game_started := False, leaderboard := [(''Ada'', 0)]\<rparr>"
proof -
  have "session_of (replay [france] Easy 0 no_culture ada_lost) =
          round1\<lparr>leaderboard := [(''Ada'', 0)]\<rparr>"
    by (simp add: replay_ok [OF select_france make_secret_france] play_again_def ada_lost_eq
        round1_eq init_session_def)
  then show ?thesis
    by (simp add: ada_won_def round1_eq secret_france_def init_session_def submit_guess_def
        lower_def lower_char_def upper_letters_def lower_letters_def strip_def isspace_def)
qed

lemma reachable_ada_won: "reachable ada_won"
  unfolding ada_won_def ada_lost_def
  by (intro r_guess reachable_replay r_score reachable_lost1)

text \<open>
  Claim C7, amended. In every reachable store: a submission under the empty name changes
  nothing (a name of blanks is a name like any other); when the player has an entry at
  least as high as the points, the leaderboard stays as it is; when all the player's
  entries are lower, they are replaced by one entry with the points; a new player's
  entry is appended before sorting; after any submission the leaderboard has at most 5
  entries in descending order of score; and the sort keeps entries of equal score in the
  order they had, so that a new entry comes after the older ones of its score.
\<close>

theorem leaderboard_submit:
  assumes "reachable s"
  shows "submit_score [] s = s \<and>
    (\<forall>player old. player \<noteq> [] \<and> (player, old) \<in> set (leaderboard s) \<and> points s \<le> old \<longrightarrow>
       leaderboard (submit_score player s) = leaderboard s) \<and>
    (\<forall>player. player \<noteq> [] \<and> player \<in> fst ` set (leaderboard s) \<and>
         (\<forall>old. (player, old) \<in> set (leaderboard s) \<longrightarrow> old < points s) \<longrightarrow>
       leaderboard (submit_score player s) =
         sorted_reverse snd
           (filter (\<lambda>e. fst e \<noteq> player) (leaderboard s) @ [(player, points s)]) \<and>
       filter (\<lambda>e. fst e = player) (leaderboard (submit_score player s)) =
         [(player, points s)]) \<and>
    (\<forall>player. player \<noteq> [] \<and> player \<notin> fst ` set (leaderboard s) \<longrightarrow>
       leaderboard (submit_score player s) =
         take 5 (sorted_reverse snd (leaderboard s @ [(player, points s)]))) \<and>
    (\<forall>player. length (leaderboard (submit_score player s)) \<le> 5 \<and>
       sorted_wrt (\<ge>) (map snd (leaderboard (submit_score player s)))) \<and>
    (\<forall>(xs :: (string \<times> int) list) k.
       filter (\<lambda>e. snd e = k) (sorted_reverse snd xs) = filter (\<lambda>e. snd e = k) xs)"
proof -
  from assms have inv: "length (leaderboard s) \<le> 5" "sorted_wrt (\<ge>) (map snd (leaderboard s))"
    using leaderboard_inv by blast+
  have a: "submit_score [] s = s"
    by (rule submit_score_empty_name)
  have b: "leaderboard (submit_score player s) = leaderboard s"
    if "player \<noteq> []" "(player, old) \<in> set (leaderboard s)" "points s \<le> old" for player old
    using that inv by (rule submit_score_keeps)
  have c: "leaderboard (submit_score player s) =
         sorted_reverse snd
           (filter (\<lambda>e. fst e \<noteq> player) (leaderboard s) @ [(player, points s)]) \<and>
       filter (\<lambda>e. fst e = player) (leaderboard (submit_score player s)) =
         [(player, points s)]"
    if "player \<noteq> []" "player \<in> fst ` set (leaderboard s)"
      "\<forall>old. (player, old) \<in> set (leaderboard s) \<longrightarrow> old < points s" for player
    using submit_score_replaces [of player s] that inv(1) by blast
  have d: "leaderboard (submit_score player s) =
         take 5 (sorted_reverse snd (leaderboard s @ [(player, points s)]))"
    if "player \<noteq> []" "player \<notin> fst ` set (leaderboard s)" for player
    using that by (rule submit_score_new)
  have e: "length (leaderboard (submit_score player s)) \<le> 5 \<and>
       sorted_wrt (\<ge>) (map snd (leaderboard (submit_score player s)))" for player
  proof (cases "player = []")
    case True
    with inv show ?thesis by (simp add: submit_score_empty_name)
  next
    case False
    then show ?thesis by (rule submit_score_bounded)
  qed
  have f: "filter (\<lambda>e. snd e = k) (sorted_reverse snd xs) = filter (\<lambda>e. snd e = k) xs"
    for xs :: "(string \<times> int) list" and k
    by (rule sorted_reverse_stable)
  from a b c d e f show ?thesis by blast
qed

text \<open>A better score replaces the stored one, an equal one does not, and a second player
  with the same score comes second.\<close>

theorem leaderboard_submit_witness:
  "reachable ada_won \<and> leaderboard ada_won = [(''Ada'', 0)] \<and> points ada_won = 100 \<and>
   submit_score [] ada_won = ada_won \<and>
   leaderboard (submit_score ''Ada'' ada_won) = [(''Ada'', 100)] \<and>
   leaderboard (submit_score ''Ada'' (session_of (leaderboard_block True ''Ada'' ada_won))) =
     [(''Ada'', 100)] \<and>
   leaderboard (submit_score ''Bob'' (session_of (leaderboard_block True ''Ada'' ada_won))) =
     [(''Ada'', 100), (''Bob'', 100)]"
proof -
  let ?top = "session_of (leaderboard_block True ''Ada'' ada_won)"
  have r: "reachable ada_won"
    by (rule reachable_ada_won)
  then have r': "reachable ?top"
    by (rule r_score)
  have lb: "leaderboard ada_won = [(''Ada'', 0)]" and p: "points ada_won = 100"
    by (simp_all add: ada_won_eq round1_eq init_session_def)
  note t = leaderboard_submit [OF r]
  note t' = leaderboard_submit [OF r']
  from t have a: "submit_score [] ada_won = ada_won"
    by blast
  have "''Ada'' \<noteq> [] \<and> ''Ada'' \<in> fst ` set (leaderboard ada_won) \<and>
      (\<forall>old. (''Ada'', old) \<in> set (leaderboard ada_won) \<longrightarrow> old < points ada_won)"
    by (simp add: lb p)
  with t have "leaderboard (submit_score ''Ada'' ada_won) =
      sorted_reverse snd
        (filter (\<lambda>e. fst e \<noteq> ''Ada'') (leaderboard ada_won) @ [(''Ada'', points ada_won)])"
    by blast
  then have b: "leaderboard (submit_score ''Ada'' ada_won) = [(''Ada'', 100)]"
    by (simp add: lb p sorted_reverse_def)
  have top: "leaderboard ?top = [(''Ada'', 100)]" "points ?top = 100"
    using b by (simp_all add: leaderboard_block_def ada_won_eq round1_eq init_session_def
        submit_score_def)
  have "''Ada'' \<noteq> [] \<and> (''Ada'', 100) \<in> set (leaderboard ?top) \<and> points ?top \<le> 100"
    by (simp add: top)
  with t' have "leaderboard (submit_score ''Ada'' ?top) = leaderboard ?top"
    by blast
  then have c: "leaderboard (submit_score ''Ada'' ?top) = [(''Ada'', 100)]"
    by (simp add: top)
  have "''Bob'' \<noteq> [] \<and> ''Bob'' \<notin> fst ` set (leaderboard ?top)"
    by (simp add: top)
  with t' have "leaderboard (submit_score ''Bob'' ?top) =
      take 5 (sorted_reverse snd (leaderboard ?top @ [(''Bob'', points ?top)]))"
    by blast
  then have d: "leaderboard (submit_score ''Bob'' ?top) = [(''Ada'', 100), (''Bob'', 100)]"
    by (simp add: top sorted_reverse_def)
  from r lb p a b c d show ?thesis by simp
qed

end
